theory Spec2Isabelle
  imports Main "HOL-Library.AList"
begin

section \<open>Python values, exceptions and the request\<close>

text \<open>
  The fragment of Python values that \<open>ninja/operation.py\<close> inspects or builds.
  Three constructors are the instances of django's \<open>HttpResponse\<close>:
  \<open>Response data status\<close> is \<open>ninja.responses.Response(data, status=status)\<close>, with
  \<open>None\<close> for a call that passes no \<open>status\<close>;
  \<open>HttpResponseNotAllowed methods content\<close> is django's 405 response;
  \<open>HttpResponse content\<close> is any other instance of that class.
  \<open>StreamingHttpResponse content\<close> is django's streaming response (\<open>FileResponse\<close>
  is a subclass of it): a response object of the framework whose class derives from
  \<open>HttpResponseBase\<close> and not from \<open>HttpResponse\<close>.
\<close>

datatype pyval =
    PyNone
  | PyInt int
  | PyStr string
  | PyTuple "pyval list"
  | PyList "pyval list"
  | PyDict "(pyval \<times> pyval) list"
  | Response pyval "pyval option"
  | HttpResponseNotAllowed "string set" string
  | HttpResponse string
  | StreamingHttpResponse string

text \<open>
  \<open>isinstance(result, HttpResponse)\<close>, the test of \<open>_create_response\<close>, and
  \<open>isinstance(result, HttpResponseBase)\<close>, which holds of every response object of
  the framework.
\<close>

fun isinstance_HttpResponse :: "pyval \<Rightarrow> bool" where
  "isinstance_HttpResponse (Response d st) = True"
| "isinstance_HttpResponse (HttpResponseNotAllowed ms c) = True"
| "isinstance_HttpResponse (HttpResponse c) = True"
| "isinstance_HttpResponse v = False"


text \<open>
  Python hashes a tuple through its elements; lists and dicts have no hash, and
  looking one up in a dict raises \<open>TypeError\<close>.
\<close>

fun hashable :: "pyval \<Rightarrow> bool" where
  "hashable (PyList xs) = False"
| "hashable (PyDict kvs) = False"
| "hashable (PyTuple xs) = list_all hashable xs"
| "hashable v = True"

text \<open>
  The exceptions that leave the module. \<open>ConfigError status\<close> carries the status
  that the message \<open>Schema for status {status} is not set in response\<close> formats.
  \<open>TypeError\<close> and \<open>AttributeError\<close> are what Python raises when the module calls
  an object that is not callable, hashes an unhashable value, or reads an attribute
  of \<open>None\<close>. \<open>Exception\<close> is the plain exception of \<open>AsyncOperation.__init__\<close>.
\<close>

datatype exn =
    ConfigError pyval
  | TypeError
  | AttributeError
  | Exception string

type_synonym kwargs = "string \<rightharpoonup> pyval"

text \<open>
  The request: the \<open>auth\<close> attribute that authentication sets (\<open>None\<close> while
  the attribute is unset), the rest of the request, opaque here, and its HTTP method
  (\<open>request.method\<close>).
\<close>

record request =
  auth :: "pyval option"
  content :: pyval
  req_method :: string

text \<open>
  Calls to the external collaborators are recorded in a log, so that a statement
  can say which of them a run invoked and in which order.
\<close>

datatype event = AuthCall nat | CsrfCheck | ResolveCall nat | ViewCall

record state =
  request :: request
  calls :: "event list"

definition record_call :: "event \<Rightarrow> state \<Rightarrow> state" where
  "record_call e s = s\<lparr>calls := calls s @ [e]\<rparr>"

section \<open>The collaborators of an Operation\<close>

text \<open>
  What can be passed as \<open>auth\<close>: the sentinel \<open>NOT_SET\<close>, \<open>None\<close>, a callable
  \<open>request \<rightarrow> identity | None\<close>, or a sequence of such objects.
\<close>

datatype authobj =
    NOT_SET
  | AuthNone
  | Callable "request \<Rightarrow> pyval"
  | Seq "authobj list"

text \<open>The tests \<open>auth is None\<close> and \<open>auth is NOT_SET\<close> (also \<open>== NOT_SET\<close>).\<close>

fun is_None :: "authobj \<Rightarrow> bool" where
  "is_None AuthNone = True"
| "is_None a = False"

fun is_NOT_SET :: "authobj \<Rightarrow> bool" where
  "is_NOT_SET NOT_SET = True"
| "is_NOT_SET a = False"

text \<open>\<open>callback(request)\<close>: only a callable can be called.\<close>

fun call :: "authobj \<Rightarrow> request \<Rightarrow> exn + pyval" where
  "call (Callable f) r = Inr (f r)"
| "call c r = Inl TypeError"

text \<open>
  One validation error item, as \<open>e.errors()\<close> lists them: a location tuple, a message
  and an error type. \<open>item_dict\<close> is the dict that ends up in the response body.
\<close>

record error_item =
  loc :: "pyval list"
  msg :: string
  err_type :: string

definition item_dict :: "error_item \<Rightarrow> pyval" where
  "item_dict i =
     PyDict [(PyStr ''loc'', PyTuple (loc i)), (PyStr ''msg'', PyStr (msg i)),
             (PyStr ''type'', PyStr (err_type i))]"

text \<open>
  A parameter model: its source tag (\<open>model._in\<close>) and \<open>model.resolve\<close>, which
  returns the resolved arguments or raises one of the two exceptions that
  \<open>_get_values\<close> catches, carrying the list \<open>e.errors()\<close>.
\<close>

record param_model =
  tag_in :: string
  resolve :: "request \<Rightarrow> kwargs \<Rightarrow> error_item list + kwargs"

text \<open>
  The handler: whether it is a coroutine function (what \<open>is_async\<close> tests) and the
  function itself, called with the request and the resolved keyword arguments.
\<close>

record view =
  coroutine :: bool
  view_call :: "request \<Rightarrow> kwargs \<Rightarrow> pyval"

record api =
  api_auth :: authobj
  csrf :: bool

text \<open>
  Type objects: \<open>None\<close>, a declared type, and the schema class that
  \<open>_create_response_model\<close> synthesises around a type. A status-keyed response
  declaration is a dict object on the heap, so that the caller and the Operation
  can hold the same object.
\<close>

datatype pytype =
    TyNone
  | TyName string
  | NinjaResponseSchema pytype

type_synonym addr = nat
type_synonym pydict = "(int \<times> pytype) list"
type_synonym heap = "addr \<Rightarrow> pydict"

datatype pyobj = DictRef addr | TypeObj pytype

datatype response_object = ResponseObject pyval

text \<open>
  The parts of the environment that are not in this module:
  \<open>from_orm m o\<close> is \<open>m.from_orm(o).dict()["response"]\<close>, \<open>check_csrf\<close> is
  \<open>ninja.utils.check_csrf\<close>, \<open>view_signature\<close> gives the models of
  \<open>ViewSignature(path, view_func)\<close>, and \<open>django_version\<close> is the first two
  components of \<open>django.VERSION\<close>.
\<close>

record externals =
  from_orm :: "pytype \<Rightarrow> response_object \<Rightarrow> pyval"
  check_csrf :: "request \<Rightarrow> view \<Rightarrow> pyval option"
  view_signature :: "string \<Rightarrow> view \<Rightarrow> param_model list"
  django_version :: "nat \<times> nat"

section \<open>Operation\<close>

record operation =
  is_async :: bool
  path :: string
  methods :: "string list"
  view_func :: view
  op_api :: "api option"
  auth_param :: authobj
  auth_callbacks :: "authobj list"
  models :: "param_model list"
  response_model :: pyobj

text \<open>\<open>Operation._set_auth\<close>: \<open>isinstance(auth, Sequence) and auth or [auth]\<close>.\<close>

definition set_auth :: "operation \<Rightarrow> authobj \<Rightarrow> operation" where
  "set_auth op a =
     (if \<not> is_None a \<and> \<not> is_NOT_SET a
      then op\<lparr>auth_callbacks := (case a of Seq xs \<Rightarrow> (if xs \<noteq> [] then xs else [a]) | _ \<Rightarrow> [a])\<rparr>
      else op)"

text \<open>\<open>Operation._create_response_model\<close>.\<close>

fun create_response_model :: "pytype \<Rightarrow> pytype" where
  "create_response_model TyNone = TyNone"
| "create_response_model t = NinjaResponseSchema t"

text \<open>
  \<open>Operation._create_response_model_multiple\<close>: the loop over
  \<open>response_param.items()\<close> stores into the dict object it iterates, and the same
  object is returned.
\<close>

definition create_response_model_multiple :: "heap \<Rightarrow> addr \<Rightarrow> pyobj \<times> heap" where
  "create_response_model_multiple h a =
     (DictRef a,
      fold (\<lambda>(status, model) h'. h'(a := AList.update status (create_response_model model) (h' a)))
        (h a) h)"

text \<open>\<open>Operation.__init__\<close>.\<close>

definition Operation_init ::
  "externals \<Rightarrow> heap \<Rightarrow> string \<Rightarrow> string list \<Rightarrow> view \<Rightarrow> authobj \<Rightarrow> pyobj \<Rightarrow> operation \<times> heap" where
  "Operation_init ext h p ms v a response =
     (let op0 = \<lparr>is_async = False, path = p, methods = ms, view_func = v, op_api = None,
                 auth_param = a, auth_callbacks = [], models = [],
                 response_model = TypeObj TyNone\<rparr>;
          op1 = set_auth op0 a;
          op2 = op1\<lparr>models := view_signature ext p v\<rparr>
      in case response of
           DictRef d \<Rightarrow>
             (let (r, h') = create_response_model_multiple h d in (op2\<lparr>response_model := r\<rparr>, h'))
         | TypeObj t \<Rightarrow> (op2\<lparr>response_model := TypeObj (create_response_model t)\<rparr>, h))"

text \<open>\<open>Operation.set_api_instance\<close>.\<close>

definition set_api_instance :: "operation \<Rightarrow> api \<Rightarrow> operation" where
  "set_api_instance op a =
     (let op1 = op\<lparr>op_api := Some a\<rparr>
      in if is_NOT_SET (auth_param op1) \<and> \<not> is_NOT_SET (api_auth a) then set_auth op1 (api_auth a) else op1)"

text \<open>
  \<open>Operation._run_authentication\<close>: the loop over \<open>self.auth_callbacks\<close>, with the
  position of the callback for the log. The result is \<open>None\<close> or the 401 response.
\<close>

definition unauthorized :: pyval where
  "unauthorized = Response (PyDict [(PyStr ''detail'', PyStr ''Unauthorized'')]) (Some (PyInt 401))"

fun run_authentication_from :: "nat \<Rightarrow> authobj list \<Rightarrow> state \<Rightarrow> (exn + pyval option) \<times> state" where
  "run_authentication_from i [] s = (Inr (Some unauthorized), s)"
| "run_authentication_from i (callback # cbs) s =
     (case call callback (request s) of
        Inl e \<Rightarrow> (Inl e, record_call (AuthCall i) s)
      | Inr result \<Rightarrow>
          if result \<noteq> PyNone
          then (Inr None, (record_call (AuthCall i) s)\<lparr>request := (request s)\<lparr>auth := Some result\<rparr>\<rparr>)
          else run_authentication_from (Suc i) cbs (record_call (AuthCall i) s))"

definition run_authentication :: "operation \<Rightarrow> state \<Rightarrow> (exn + pyval option) \<times> state" where
  "run_authentication op s = run_authentication_from 0 (auth_callbacks op) s"

text \<open>\<open>Operation._run_checks\<close>: authentication, then CSRF.\<close>

definition run_checks :: "externals \<Rightarrow> operation \<Rightarrow> state \<Rightarrow> (exn + pyval option) \<times> state" where
  "run_checks ext op s =
     (case (if auth_callbacks op \<noteq> [] then run_authentication op s else (Inr None, s)) of
        (Inl e, s1) \<Rightarrow> (Inl e, s1)
      | (Inr (Some error), s1) \<Rightarrow> (Inr (Some error), s1)
      | (Inr None, s1) \<Rightarrow>
          (case op_api op of
             None \<Rightarrow> (Inl AttributeError, s1)
           | Some a \<Rightarrow>
               if csrf a
               then (case check_csrf ext (request s1) (view_func op) of
                       Some error \<Rightarrow> (Inr (Some error), record_call CsrfCheck s1)
                     | None \<Rightarrow> (Inr None, record_call CsrfCheck s1))
               else (Inr None, s1)))"

text \<open>
  \<open>Operation._create_response\<close>. The status-keyed dict has integer keys, so a
  status that is not an integer is not among them; a status without a hash raises
  \<open>TypeError\<close> in the membership test. A dict entry that is \<open>None\<close> has no
  \<open>from_orm\<close>.
\<close>

fun status_key :: "pyval \<Rightarrow> int option" where
  "status_key (PyInt n) = Some n"
| "status_key v = None"

definition lookup_status :: "pydict \<Rightarrow> pyval \<Rightarrow> pytype option" where
  "lookup_status d status = (case status_key status of None \<Rightarrow> None | Some n \<Rightarrow> map_of d n)"

fun split_result :: "pyval \<Rightarrow> pyval \<times> pyval" where
  "split_result (PyTuple [a, b]) = (a, b)"
| "split_result result = (PyInt 200, result)"

definition create_response :: "externals \<Rightarrow> heap \<Rightarrow> operation \<Rightarrow> pyval \<Rightarrow> exn + pyval" where
  "create_response ext h op result =
     (if isinstance_HttpResponse result then Inr result
      else if response_model op = TypeObj TyNone then Inr (Response result None)
      else
        (let (status, result') = split_result result
         in case (case response_model op of
                    DictRef d \<Rightarrow>
                      (if \<not> hashable status then Inl TypeError
                       else case lookup_status (h d) status of
                              None \<Rightarrow> Inl (ConfigError status)
                            | Some m \<Rightarrow> Inr m)
                  | TypeObj t \<Rightarrow> Inr t) of
              Inl e \<Rightarrow> Inl e
            | Inr m \<Rightarrow>
                (if m = TyNone then Inl AttributeError
                 else Inr (Response (from_orm ext m (ResponseObject result')) (Some status)))))"

text \<open>
  \<open>Operation._get_values\<close>: the loop over \<open>self.models\<close>, with the position of the
  model for the log and the two accumulators \<open>values\<close> and \<open>errors\<close>.
\<close>

definition prefix_loc :: "string \<Rightarrow> error_item \<Rightarrow> error_item" where
  "prefix_loc tag i = i\<lparr>loc := PyStr tag # loc i\<rparr>"

fun get_values_from ::
  "nat \<Rightarrow> param_model list \<Rightarrow> kwargs \<Rightarrow> kwargs \<Rightarrow> error_item list \<Rightarrow> state \<Rightarrow>
   (kwargs \<times> error_item list) \<times> state" where
  "get_values_from i [] path_params values errors s = ((values, errors), s)"
| "get_values_from i (model # ms) path_params values errors s =
     (case resolve model (request s) path_params of
        Inr data \<Rightarrow>
          get_values_from (Suc i) ms path_params (values ++ data) errors (record_call (ResolveCall i) s)
      | Inl es \<Rightarrow>
          get_values_from (Suc i) ms path_params values
            (errors @ map (prefix_loc (tag_in model)) es) (record_call (ResolveCall i) s))"

definition get_values :: "operation \<Rightarrow> kwargs \<Rightarrow> state \<Rightarrow> (kwargs \<times> error_item list) \<times> state" where
  "get_values op path_params s = get_values_from 0 (models op) path_params Map.empty [] s"

text \<open>\<open>Operation.run\<close>; \<open>AsyncOperation.run\<close> is the same but for awaiting the handler.\<close>

definition validation_failure :: "error_item list \<Rightarrow> pyval" where
  "validation_failure errors =
     Response (PyDict [(PyStr ''detail'', PyList (map item_dict errors))]) (Some (PyInt 422))"

definition run :: "externals \<Rightarrow> heap \<Rightarrow> operation \<Rightarrow> kwargs \<Rightarrow> state \<Rightarrow> (exn + pyval) \<times> state" where
  "run ext h op kw s =
     (case run_checks ext op s of
        (Inl e, s1) \<Rightarrow> (Inl e, s1)
      | (Inr (Some error), s1) \<Rightarrow> (Inr error, s1)
      | (Inr None, s1) \<Rightarrow>
          (case get_values op kw s1 of
             ((values, errors), s2) \<Rightarrow>
               if errors \<noteq> [] then (Inr (validation_failure errors), s2)
               else
                 (let result = view_call (view_func op) (request s2) values
                  in (create_response ext h op result, record_call ViewCall s2))))"

section \<open>AsyncOperation\<close>

text \<open>
  \<open>AsyncOperation.__init__\<close>: \<open>django.VERSION < (3, 1)\<close> compares tuples
  lexicographically.
\<close>

definition version_lt :: "nat \<times> nat \<Rightarrow> nat \<times> nat \<Rightarrow> bool" where
  "version_lt v w = (fst v < fst w \<or> (fst v = fst w \<and> snd v < snd w))"

definition AsyncOperation_init ::
  "externals \<Rightarrow> heap \<Rightarrow> string \<Rightarrow> string list \<Rightarrow> view \<Rightarrow> authobj \<Rightarrow> pyobj \<Rightarrow>
   (exn + operation) \<times> heap" where
  "AsyncOperation_init ext h p ms v a response =
     (if version_lt (django_version ext) (3, 1)
      then (Inl (Exception ''Async operations are supported only with Django 3.1+''), h)
      else (case Operation_init ext h p ms v a response of
              (op, h') \<Rightarrow> (Inr (op\<lparr>is_async := True\<rparr>), h')))"

section \<open>PathView\<close>

record pathview =
  operations :: "operation list"
  pv_is_async :: bool
  pv_api :: "api option"

definition PathView_init :: pathview where
  "PathView_init = \<lparr>operations = [], pv_is_async = False, pv_api = None\<rparr>"

text \<open>
  \<open>PathView.add\<close>. The flag is set before the AsyncOperation is constructed, so it
  stays set when that construction raises.
\<close>

definition add ::
  "externals \<Rightarrow> heap \<Rightarrow> pathview \<Rightarrow> string \<Rightarrow> string list \<Rightarrow> view \<Rightarrow> authobj \<Rightarrow> pyobj \<Rightarrow>
   (exn + operation) \<times> pathview \<times> heap" where
  "add ext h pv p ms v a response =
     (if coroutine v
      then
        (let pv1 = pv\<lparr>pv_is_async := True\<rparr>
         in case AsyncOperation_init ext h p ms v a response of
              (Inl e, h') \<Rightarrow> (Inl e, pv1, h')
            | (Inr operation, h') \<Rightarrow>
                (Inr operation, pv1\<lparr>operations := operations pv1 @ [operation]\<rparr>, h'))
      else
        (case Operation_init ext h p ms v a response of
           (operation, h') \<Rightarrow> (Inr operation, pv\<lparr>operations := operations pv @ [operation]\<rparr>, h')))"

text \<open>\<open>PathView.set_api_instance\<close>.\<close>

definition pv_set_api_instance :: "pathview \<Rightarrow> api \<Rightarrow> pathview" where
  "pv_set_api_instance pv a =
     pv\<lparr>pv_api := Some a, operations := map (\<lambda>op. set_api_instance op a) (operations pv)\<rparr>"

text \<open>
  \<open>PathView.get_view\<close>: which of the two views is handed to the router. (The
  \<open>csrf_exempt\<close> mark is set on the view function, not on the PathView.)
\<close>

datatype view_kind = Sync | Async

definition get_view :: "pathview \<Rightarrow> view_kind" where
  "get_view pv = (if pv_is_async pv then Async else Sync)"

text \<open>
  \<open>PathView._find_operation\<close>: the loop over \<open>self.operations\<close> with the
  accumulator \<open>allowed_methods\<close>.
\<close>

fun find_operation_from :: "operation list \<Rightarrow> string set \<Rightarrow> request \<Rightarrow> operation option \<times> pyval option" where
  "find_operation_from [] allowed_methods r =
     (None, Some (HttpResponseNotAllowed allowed_methods ''Method not allowed''))"
| "find_operation_from (op # ops) allowed_methods r =
     (let allowed_methods' = allowed_methods \<union> set (methods op)
      in if req_method r \<in> set (methods op) then (Some op, None)
         else find_operation_from ops allowed_methods' r)"

definition find_operation :: "pathview \<Rightarrow> request \<Rightarrow> operation option \<times> pyval option" where
  "find_operation pv r = find_operation_from (operations pv) {} r"

text \<open>
  \<open>PathView._sync_view\<close> and \<open>PathView._async_view\<close>. The async view awaits the
  run of an asynchronous operation and hands the run of a synchronous one to
  \<open>sync_to_async\<close>; the response is that of the run in both branches.
\<close>

definition sync_view :: "externals \<Rightarrow> heap \<Rightarrow> pathview \<Rightarrow> kwargs \<Rightarrow> state \<Rightarrow> (exn + pyval) \<times> state" where
  "sync_view ext h pv kw s =
     (case find_operation pv (request s) of
        (_, Some error) \<Rightarrow> (Inr error, s)
      | (Some operation, None) \<Rightarrow> run ext h operation kw s
      | (None, None) \<Rightarrow> (Inl AttributeError, s))"

definition async_view :: "externals \<Rightarrow> heap \<Rightarrow> pathview \<Rightarrow> kwargs \<Rightarrow> state \<Rightarrow> (exn + pyval) \<times> state" where
  "async_view ext h pv kw s =
     (case find_operation pv (request s) of
        (_, Some error) \<Rightarrow> (Inr error, s)
      | (Some operation, None) \<Rightarrow>
          (if is_async operation then run ext h operation kw s
           else run ext h operation kw s)
      | (None, None) \<Rightarrow> (Inl AttributeError, s))"

text \<open>
  What a caller of a PathView can do with it. \<open>get_view\<close>, \<open>_find_operation\<close>,
  \<open>_sync_view\<close> and \<open>_async_view\<close> assign no attribute of the PathView or of the
  operations it owns; \<open>add\<close> and \<open>set_api_instance\<close> do.
\<close>

datatype pv_call =
    Add string "string list" view authobj pyobj
  | Set_api_instance api
  | Get_view
  | Find_operation request
  | Sync_view kwargs state
  | Async_view kwargs state

fun pv_step :: "externals \<Rightarrow> pv_call \<Rightarrow> pathview \<times> heap \<Rightarrow> pathview \<times> heap" where
  "pv_step ext (Add p ms v a response) (pv, h) = snd (add ext h pv p ms v a response)"
| "pv_step ext (Set_api_instance a) (pv, h) = (pv_set_api_instance pv a, h)"
| "pv_step ext c (pv, h) = (pv, h)"

text \<open>The calls that add an operation whose handler is asynchronous.\<close>

fun adds_coroutine :: "pv_call \<Rightarrow> bool" where
  "adds_coroutine (Add p ms v a response) = coroutine v"
| "adds_coroutine c = False"

section \<open>Notions used in the statements\<close>

text \<open>A callback that returns \<open>None\<close> on the request, and one that returns an identity.\<close>

definition returns_absent :: "request \<Rightarrow> authobj \<Rightarrow> bool" where
  "returns_absent r c = (case call c r of Inr v \<Rightarrow> v = PyNone | Inl e \<Rightarrow> False)"

definition returns_identity :: "request \<Rightarrow> authobj \<Rightarrow> pyval \<Rightarrow> bool" where
  "returns_identity r c v = (case call c r of Inr w \<Rightarrow> w = v \<and> v \<noteq> PyNone | Inl e \<Rightarrow> False)"

text \<open>
  The errors one model contributes: none when it resolves, and otherwise its own
  errors, each location prefixed with the model's source tag. A model fails
  validation when it raises with at least one error item.
\<close>

definition model_errors :: "request \<Rightarrow> kwargs \<Rightarrow> param_model \<Rightarrow> error_item list" where
  "model_errors r path_params model =
     (case resolve model r path_params of
        Inl es \<Rightarrow> map (\<lambda>i. i\<lparr>loc := PyStr (tag_in model) # loc i\<rparr>) es
      | Inr data \<Rightarrow> [])"

definition fails_validation :: "request \<Rightarrow> kwargs \<Rightarrow> param_model \<Rightarrow> bool" where
  "fails_validation r path_params model =
     (case resolve model r path_params of Inl es \<Rightarrow> es \<noteq> [] | Inr data \<Rightarrow> False)"

text \<open>The keys of a status-keyed dict, as the membership test sees them.\<close>

definition is_key :: "pydict \<Rightarrow> pyval \<Rightarrow> bool" where
  "is_key d status = (case status of PyInt n \<Rightarrow> n \<in> fst ` set d | _ \<Rightarrow> False)"

text \<open>The status the shaping step resolves: 200, or the first element of a 2-tuple.\<close>

definition resolved_status :: "pyval \<Rightarrow> pyval" where
  "resolved_status result = (case result of PyTuple [a, b] \<Rightarrow> a | _ \<Rightarrow> PyInt 200)"

text \<open>The union of the method lists of a list of operations.\<close>

definition all_methods :: "operation list \<Rightarrow> string set" where
  "all_methods ops = \<Union> (set (map (\<lambda>op. set (methods op)) ops))"

text \<open>A dict in which every declared type is replaced by its wrapper schema.\<close>

definition wrap_values :: "pydict \<Rightarrow> pydict" where
  "wrap_values d =
     map (\<lambda>(status, model). (status, if model = TyNone then TyNone else NinjaResponseSchema model)) d"

section \<open>Concrete inputs\<close>

definition ex_ext :: externals where
  "ex_ext = \<lparr>from_orm = (\<lambda>m obj. case obj of ResponseObject v \<Rightarrow> PyDict [(PyStr ''shaped'', v)]),
             check_csrf = (\<lambda>r v. None),
             view_signature = (\<lambda>p v. []),
             django_version = (3, 1)\<rparr>"

definition ex_view :: view where
  "ex_view = \<lparr>coroutine = False, view_call = (\<lambda>r kw. PyTuple [PyInt 201, PyStr ''v''])\<rparr>"

definition ex_async_view :: view where
  "ex_async_view = \<lparr>coroutine = True, view_call = (\<lambda>r kw. PyStr ''v'')\<rparr>"

definition ex_heap :: heap where
  "ex_heap = (\<lambda>a. [])(0 := [(200, TyName ''Item''), (404, TyName ''Message'')])"

definition ex_api :: api where
  "ex_api = \<lparr>api_auth = NOT_SET, csrf = False\<rparr>"

definition ex_op :: "authobj \<Rightarrow> pyobj \<Rightarrow> operation" where
  "ex_op a response =
     set_api_instance (fst (Operation_init ex_ext ex_heap ''/items'' [''GET''] ex_view a response)) ex_api"

definition ex_state :: state where
  "ex_state = \<lparr>request = \<lparr>auth = None, content = PyNone, req_method = ''GET''\<rparr>, calls = []\<rparr>"

definition deny :: authobj where
  "deny = Callable (\<lambda>r. PyNone)"

definition accept :: "string \<Rightarrow> authobj" where
  "accept user = Callable (\<lambda>r. PyStr user)"

definition ex_path_model :: param_model where
  "ex_path_model =
     \<lparr>tag_in = ''path'',
      resolve = (\<lambda>r kw. Inl [\<lparr>loc = [PyStr ''id''], msg = ''value is not a valid integer'',
                                err_type = ''type_error.integer''\<rparr>])\<rparr>"

definition ex_query_model :: param_model where
  "ex_query_model = \<lparr>tag_in = ''query'', resolve = (\<lambda>r kw. Inr [''limit'' \<mapsto> PyInt 10])\<rparr>"

definition ex_body_model :: param_model where
  "ex_body_model =
     \<lparr>tag_in = ''body'',
      resolve = (\<lambda>r kw. Inl [\<lparr>loc = [PyStr ''name''], msg = ''field required'',
                                err_type = ''value_error.missing''\<rparr>])\<rparr>"

definition ex_keyed_heap :: heap where
  "ex_keyed_heap =
     snd (Operation_init ex_ext ex_heap ''/items'' [''GET''] ex_view AuthNone (DictRef 0))"

definition ex_pv :: pathview where
  "ex_pv =
     fst (fold (pv_step ex_ext)
            [Add ''/items'' [''GET''] ex_view AuthNone (TypeObj TyNone),
             Add ''/items'' [''GET'', ''PUT''] ex_async_view AuthNone (TypeObj TyNone)]
            (PathView_init, ex_heap))"

section \<open>Auxiliary facts\<close>

lemmas ex_defs =
  ex_ext_def ex_view_def ex_async_view_def ex_heap_def ex_api_def ex_op_def ex_state_def
  ex_keyed_heap_def ex_pv_def

lemmas op_defs =
  Operation_init_def AsyncOperation_init_def set_auth_def set_api_instance_def
  create_response_model_multiple_def version_lt_def add_def PathView_init_def
  pv_set_api_instance_def

lemma request_record_call [simp]: "request (record_call e s) = request s"
  by (simp add: record_call_def)

lemma calls_record_call [simp]: "calls (record_call e s) = calls s @ [e]"
  by (simp add: record_call_def)

lemma upt_shift: "map f [i..<i + Suc n] = f i # map f [Suc i..<Suc i + n]"
  by (simp add: upt_conv_Cons del: upt_Suc)

subsection \<open>Authentication\<close>

lemma run_authentication_from_absent:
  "list_all (returns_absent (request s)) pre \<Longrightarrow>
   run_authentication_from i (pre @ rest) s =
     run_authentication_from (i + length pre) rest
       (s\<lparr>calls := calls s @ map AuthCall [i..<i + length pre]\<rparr>)"
proof (induction pre arbitrary: i s)
  case Nil
  then show ?case by simp
next
  case (Cons c pre)
  from Cons.prems have "returns_absent (request s) c"
    and pre: "list_all (returns_absent (request (record_call (AuthCall i) s))) pre"
    by simp_all
  then have c: "call c (request s) = Inr PyNone"
    by (simp add: returns_absent_def split: sum.splits)
  have "run_authentication_from i ((c # pre) @ rest) s =
        run_authentication_from (Suc i) (pre @ rest) (record_call (AuthCall i) s)"
    using c by simp
  also have "\<dots> = run_authentication_from (Suc i + length pre) rest
       ((record_call (AuthCall i) s)
          \<lparr>calls := calls (record_call (AuthCall i) s) @ map AuthCall [Suc i..<Suc i + length pre]\<rparr>)"
    by (rule Cons.IH [OF pre])
  also have "(record_call (AuthCall i) s)
          \<lparr>calls := calls (record_call (AuthCall i) s) @ map AuthCall [Suc i..<Suc i + length pre]\<rparr>
      = s\<lparr>calls := calls s @ map AuthCall [i..<i + length (c # pre)]\<rparr>"
    using upt_shift [of AuthCall i "length pre"] by (simp add: record_call_def del: upt_Suc)
  finally show ?case by simp
qed

subsection \<open>Parameter resolution\<close>

lemma get_values_from_errors:
  "get_values_from i ms pp vals errors s = ((vs, es), s') \<Longrightarrow>
   es = errors @ concat (map (model_errors (request s) pp) ms) \<and>
   s' = s\<lparr>calls := calls s @ map ResolveCall [i..<i + length ms]\<rparr>"
proof (induction ms arbitrary: i vals errors s)
  case Nil
  then show ?case by simp
next
  case (Cons m ms)
  show ?case
  proof (cases "resolve m (request s) pp")
    case (Inl xs)
    with Cons.prems have
      "get_values_from (Suc i) ms pp vals (errors @ map (prefix_loc (tag_in m)) xs)
         (record_call (ResolveCall i) s) = ((vs, es), s')"
      by simp
    from Cons.IH [OF this] Inl upt_shift [of ResolveCall i "length ms"]
    show ?thesis
      by (simp add: model_errors_def prefix_loc_def record_call_def del: upt_Suc)
  next
    case (Inr data)
    with Cons.prems have
      "get_values_from (Suc i) ms pp (vals ++ data) errors (record_call (ResolveCall i) s)
         = ((vs, es), s')"
      by simp
    from Cons.IH [OF this] Inr upt_shift [of ResolveCall i "length ms"]
    show ?thesis
      by (simp add: model_errors_def record_call_def del: upt_Suc)
  qed
qed

lemma get_values_errors:
  "snd (fst (get_values op kw s)) = concat (map (model_errors (request s) kw) (models op)) \<and>
   snd (get_values op kw s) = s\<lparr>calls := calls s @ map ResolveCall [0..<length (models op)]\<rparr>"
  using get_values_from_errors [of 0 "models op" kw Map.empty "[]" s
      "fst (fst (get_values op kw s))" "snd (fst (get_values op kw s))" "snd (get_values op kw s)"]
  by (simp add: get_values_def)

lemma fails_validation_errors:
  "list_ex (fails_validation r kw) ms \<Longrightarrow> concat (map (model_errors r kw) ms) \<noteq> []"
  by (induction ms) (auto simp: fails_validation_def model_errors_def split: sum.splits)

lemma run_reaches_handler:
  "run_checks ext op s = (Inr None, s1) \<Longrightarrow> get_values op kw s1 = ((vs, []), s2) \<Longrightarrow>
   run ext h op kw s =
     (create_response ext h op (view_call (view_func op) (request s2) vs), record_call ViewCall s2)"
  by (simp add: run_def)

subsection \<open>Response shaping\<close>

lemma lookup_status_None_iff: "lookup_status d st = None \<longleftrightarrow> \<not> is_key d st"
  by (cases st) (auto simp: lookup_status_def is_key_def map_of_eq_None_iff)

lemma split_result_status: "fst (split_result result) = resolved_status result"
  unfolding resolved_status_def by (cases result rule: split_result.cases) simp_all

subsection \<open>Dispatch\<close>

lemma find_operation_from_no_match:
  "list_all (\<lambda>op. req_method r \<notin> set (methods op)) ops \<Longrightarrow>
   find_operation_from (ops @ rest) allowed r =
     find_operation_from rest (allowed \<union> all_methods ops) r"
  by (induction ops arbitrary: allowed) (auto simp: all_methods_def Un_assoc Let_def)

subsection \<open>Status-keyed declarations\<close>

lemma create_response_model_eq:
  "create_response_model m = (if m = TyNone then TyNone else NinjaResponseSchema m)"
  by (cases m) simp_all

lemma update_append_fresh:
  "k \<notin> fst ` set xs \<Longrightarrow> AList.update k v (xs @ ys) = xs @ AList.update k v ys"
  by (induction xs) auto

lemma fold_update_heap:
  "fold (\<lambda>(k, m) h'. h'(a := AList.update k (f m) (h' a))) xs h =
   h(a := fold (\<lambda>(k, m). AList.update k (f m)) xs (h a))"
  by (induction xs arbitrary: h) (auto simp: case_prod_beta)

lemma fold_update_map:
  "distinct (map fst (pre @ xs)) \<Longrightarrow>
   fold (\<lambda>(k, m). AList.update k (f m)) xs (map (\<lambda>(k, m). (k, f m)) pre @ xs) =
   map (\<lambda>(k, m). (k, f m)) (pre @ xs)"
proof (induction xs arbitrary: pre)
  case Nil
  then show ?case by simp
next
  case (Cons x xs)
  obtain k m where x: "x = (k, m)" by (cases x)
  from Cons.prems x have fresh: "k \<notin> fst ` set (map (\<lambda>(k, m). (k, f m)) pre)"
    by (auto simp: image_iff)
  have "AList.update k (f m) (map (\<lambda>(k, m). (k, f m)) pre @ (k, m) # xs) =
        map (\<lambda>(k, m). (k, f m)) (pre @ [(k, m)]) @ xs"
    using update_append_fresh [OF fresh] by simp
  moreover from Cons.prems x have "distinct (map fst ((pre @ [(k, m)]) @ xs))"
    by simp
  ultimately show ?case
    using Cons.IH [of "pre @ [(k, m)]"] x by simp
qed

lemma create_response_model_multiple_eq:
  "distinct (map fst (h d)) \<Longrightarrow>
   create_response_model_multiple h d = (DictRef d, h(d := wrap_values (h d)))"
  using fold_update_map [of "[]" "h d" create_response_model]
  by (simp add: create_response_model_multiple_def fold_update_heap wrap_values_def
      create_response_model_eq [abs_def])

lemma wrap_values_changes:
  "list_ex (\<lambda>(status, model). model \<noteq> TyNone) d \<Longrightarrow> wrap_values d \<noteq> d"
proof (induction d)
  case Nil
  then show ?case by simp
next
  case (Cons x d)
  obtain k m where "x = (k, m)" by (cases x)
  with Cons show ?case
    by (cases "m = TyNone") (auto simp: wrap_values_def)
qed

subsection \<open>The async flags\<close>

lemma is_async_set_auth: "is_async (set_auth op a) = is_async op"
  by (simp add: set_auth_def)

lemma is_async_set_api_instance: "is_async (set_api_instance op a) = is_async op"
  by (simp add: set_api_instance_def is_async_set_auth Let_def)

lemma is_async_Operation_init: "is_async (fst (Operation_init ext h p ms v a response)) = False"
  by (cases response)
     (simp_all add: Operation_init_def is_async_set_auth create_response_model_multiple_def)

lemma is_async_AsyncOperation_init:
  "AsyncOperation_init ext h p ms v a response = (Inr op, h') \<Longrightarrow> is_async op"
  by (auto simp: AsyncOperation_init_def split: if_splits prod.splits)

lemma add_flag:
  "pv_is_async (fst (snd (add ext h pv p ms v a response))) = (pv_is_async pv \<or> coroutine v)"
  by (auto simp: add_def Let_def split: prod.splits sum.splits)

lemma add_operations:
  "take (length (operations pv)) (operations (fst (snd (add ext h pv p ms v a response))))
     = operations pv"
  by (auto simp: add_def Let_def split: prod.splits sum.splits)

lemma add_sync_owned:
  "\<not> coroutine v \<Longrightarrow>
   list_ex is_async (operations (fst (snd (add ext h pv p ms v a response))))
     = list_ex is_async (operations pv)"
  using is_async_Operation_init [of ext h p ms v a response]
  by (auto simp: add_def split: prod.splits)

lemma pv_step_flag: "pv_is_async pv \<Longrightarrow> pv_is_async (fst (pv_step ext c (pv, h)))"
  by (cases c) (simp_all add: add_flag pv_set_api_instance_def)

lemma pv_steps_flag:
  "pv_is_async pv \<Longrightarrow> pv_is_async (fst (fold (pv_step ext) cs (pv, h)))"
proof (induction cs arbitrary: pv h)
  case Nil
  then show ?case by simp
next
  case (Cons c cs)
  obtain pv' h' where step: "pv_step ext c (pv, h) = (pv', h')"
    by (cases "pv_step ext c (pv, h)")
  with pv_step_flag [OF Cons.prems, of ext c h] have "pv_is_async pv'" by simp
  from Cons.IH [OF this] step show ?case by simp
qed

lemma pv_step_flag_eq:
  "pv_is_async (fst (pv_step ext c (pv, h))) = (pv_is_async pv \<or> adds_coroutine c)"
  by (cases c) (simp_all add: add_flag pv_set_api_instance_def)

lemma pv_steps_flag_eq:
  "pv_is_async (fst (fold (pv_step ext) cs (pv, h))) = (pv_is_async pv \<or> list_ex adds_coroutine cs)"
proof (induction cs arbitrary: pv h)
  case Nil
  then show ?case by simp
next
  case (Cons c cs)
  obtain pv' h' where step: "pv_step ext c (pv, h) = (pv', h')"
    by (cases "pv_step ext c (pv, h)")
  with pv_step_flag_eq [of ext c pv h] have "pv_is_async pv' = (pv_is_async pv \<or> adds_coroutine c)"
    by simp
  with Cons.IH [of pv' h'] step show ?case by auto
qed

lemma add_returns:
  "add ext h pv p ms v a response = (Inr op, pv', h') \<Longrightarrow>
   is_async op = coroutine v \<and> operations pv' = operations pv @ [op]"
  using is_async_Operation_init [of ext h p ms v a response]
  by (auto simp: add_def AsyncOperation_init_def Let_def split: if_splits prod.splits sum.splits)

lemma add_async_owned:
  "coroutine v \<Longrightarrow> \<not> version_lt (django_version ext) (3, 1) \<Longrightarrow>
   list_ex is_async (operations (fst (snd (add ext h pv p ms v a response))))"
  by (auto simp: add_def AsyncOperation_init_def Let_def split: prod.splits)

lemma pv_step_exact:
  assumes "pv_is_async pv = list_ex is_async (operations pv)"
    and "\<not> version_lt (django_version ext) (3, 1)"
  shows "pv_is_async (fst (pv_step ext c (pv, h)))
           = list_ex is_async (operations (fst (pv_step ext c (pv, h))))"
proof (cases c)
  case (Add p ms v a response)
  show ?thesis
  proof (cases "coroutine v")
    case True
    with Add add_async_owned [OF True assms(2), of h pv p ms a response]
    show ?thesis by (simp add: add_flag)
  next
    case False
    with Add assms(1) add_sync_owned [OF False, of ext h pv p ms a response]
    show ?thesis by (simp add: add_flag)
  qed
next
  case (Set_api_instance a)
  with assms(1) show ?thesis
    by (simp add: pv_set_api_instance_def list_ex_iff is_async_set_api_instance)
qed (use assms(1) in simp_all)

lemma pv_steps_exact:
  "pv_is_async pv = list_ex is_async (operations pv) \<Longrightarrow>
   \<not> version_lt (django_version ext) (3, 1) \<Longrightarrow>
   pv_is_async (fst (fold (pv_step ext) cs (pv, h)))
     = list_ex is_async (operations (fst (fold (pv_step ext) cs (pv, h))))"
proof (induction cs arbitrary: pv h)
  case Nil
  then show ?case by simp
next
  case (Cons c cs)
  obtain pv' h' where step: "pv_step ext c (pv, h) = (pv', h')"
    by (cases "pv_step ext c (pv, h)")
  with pv_step_exact [OF Cons.prems, of c h]
  have "pv_is_async pv' = list_ex is_async (operations pv')" by simp
  from Cons.IH [OF this Cons.prems(2)] step show ?case by simp
qed

lemma pv_step_owned:
  "take (length (operations pv)) (map is_async (operations (fst (pv_step ext c (pv, h)))))
     = map is_async (operations pv)"
proof (cases c)
  case (Add p ms v a response)
  then show ?thesis
    using add_operations [of pv ext h p ms v a response]
    by (simp add: take_map)
next
  case (Set_api_instance a)
  then show ?thesis
    by (simp add: pv_set_api_instance_def is_async_set_api_instance comp_def)
qed simp_all

lemma take_take_prefix:
  assumes "take (length xs) ys = xs" and "take (length ys) zs = ys"
  shows "take (length xs) zs = xs"
proof -
  from assms(1) have "length (take (length xs) ys) = length xs"
    by simp
  then have "length xs \<le> length ys"
    by simp
  then have "take (length xs) zs = take (length xs) (take (length ys) zs)"
    by (simp add: min_def)
  with assms show ?thesis by simp
qed

lemma pv_steps_owned:
  "take (length (operations pv)) (map is_async (operations (fst (fold (pv_step ext) cs (pv, h)))))
     = map is_async (operations pv)"
proof (induction cs arbitrary: pv h)
  case Nil
  then show ?case by simp
next
  case (Cons c cs)
  obtain pv' h' where step: "pv_step ext c (pv, h) = (pv', h')"
    by (cases "pv_step ext c (pv, h)")
  have one: "take (length (map is_async (operations pv))) (map is_async (operations pv'))
      = map is_async (operations pv)"
    using pv_step_owned [of pv ext c h] step by simp
  have rest: "take (length (map is_async (operations pv')))
        (map is_async (operations (fst (fold (pv_step ext) cs (pv', h')))))
      = map is_async (operations pv')"
    using Cons.IH [of pv' h'] by simp
  from take_take_prefix [OF one rest] step show ?case by simp
qed

lemma pv_step_or:
  assumes "list_ex is_async (operations pv) \<longrightarrow> pv_is_async pv"
  shows "list_ex is_async (operations (fst (pv_step ext c (pv, h))))
           \<longrightarrow> pv_is_async (fst (pv_step ext c (pv, h)))"
proof (cases c)
  case (Add p ms v a response)
  show ?thesis
  proof (cases "coroutine v")
    case True
    with Add show ?thesis by (simp add: add_flag)
  next
    case False
    with Add assms add_sync_owned [OF False, of ext h pv p ms a response]
    show ?thesis by (simp add: add_flag)
  qed
next
  case (Set_api_instance a)
  with assms show ?thesis
    by (simp add: pv_set_api_instance_def list_ex_iff is_async_set_api_instance)
qed (use assms in simp_all)

lemma pv_steps_or:
  "(list_ex is_async (operations pv) \<longrightarrow> pv_is_async pv) \<Longrightarrow>
   list_ex is_async (operations (fst (fold (pv_step ext) cs (pv, h))))
     \<longrightarrow> pv_is_async (fst (fold (pv_step ext) cs (pv, h)))"
proof (induction cs arbitrary: pv h)
  case Nil
  then show ?case by simp
next
  case (Cons c cs)
  obtain pv' h' where step: "pv_step ext c (pv, h) = (pv', h')"
    by (cases "pv_step ext c (pv, h)")
  with pv_step_or [OF Cons.prems, of ext c h]
  have "list_ex is_async (operations pv') \<longrightarrow> pv_is_async pv'" by simp
  from Cons.IH [OF this] step show ?case by simp
qed

section \<open>Response shaping of a returned pair\<close>

text \<open>
  Claim C1, as the code has it. When the handler returns a 2-tuple
  \<open>(status, payload)\<close> and a response schema was declared, the shaping step applies
  the schema to the payload alone and builds the response with the tuple's status:
  for a single schema, and for a status-keyed mapping that holds a schema for that
  status. When no response schema was declared the test for \<open>None\<close> returns first:
  the whole tuple is handed to the default response constructor and no status is
  passed to it.
\<close>

theorem tuple_status_and_payload:
  "(response_model op = TypeObj t \<and> t \<noteq> TyNone \<longrightarrow>
      create_response ext h op (PyTuple [status, payload])
        = Inr (Response (from_orm ext t (ResponseObject payload)) (Some status))) \<and>
   (response_model op = DictRef d \<and> map_of (h d) n = Some m \<and> m \<noteq> TyNone \<longrightarrow>
      create_response ext h op (PyTuple [PyInt n, payload])
        = Inr (Response (from_orm ext m (ResponseObject payload)) (Some (PyInt n)))) \<and>
   (response_model op = TypeObj TyNone \<longrightarrow>
      create_response ext h op (PyTuple [status, payload])
        = Inr (Response (PyTuple [status, payload]) None))"
  by (auto simp: create_response_def lookup_status_def)

theorem tuple_status_and_payload_witness:
  "response_model (ex_op AuthNone (TypeObj (TyName ''Item'')))
     = TypeObj (NinjaResponseSchema (TyName ''Item'')) \<and>
   create_response ex_ext ex_heap (ex_op AuthNone (TypeObj (TyName ''Item'')))
       (PyTuple [PyInt 201, PyStr ''v''])
     = Inr (Response (PyDict [(PyStr ''shaped'', PyStr ''v'')]) (Some (PyInt 201))) \<and>
   response_model (ex_op AuthNone (DictRef 0)) = DictRef 0 \<and>
   map_of (ex_keyed_heap 0) 404 = Some (NinjaResponseSchema (TyName ''Message'')) \<and>
   create_response ex_ext ex_keyed_heap (ex_op AuthNone (DictRef 0))
       (PyTuple [PyInt 404, PyStr ''v''])
     = Inr (Response (PyDict [(PyStr ''shaped'', PyStr ''v'')]) (Some (PyInt 404))) \<and>
   response_model (ex_op AuthNone (TypeObj TyNone)) = TypeObj TyNone \<and>
   create_response ex_ext ex_heap (ex_op AuthNone (TypeObj TyNone))
       (PyTuple [PyInt 201, PyStr ''v''])
     = Inr (Response (PyTuple [PyInt 201, PyStr ''v'']) None)"
  using
    tuple_status_and_payload [where op = "ex_op AuthNone (TypeObj (TyName ''Item''))"
      and t = "NinjaResponseSchema (TyName ''Item'')" and ext = ex_ext and h = ex_heap
      and status = "PyInt 201" and payload = "PyStr ''v''"]
    tuple_status_and_payload [where op = "ex_op AuthNone (DictRef 0)" and d = 0
      and h = ex_keyed_heap and n = 404 and m = "NinjaResponseSchema (TyName ''Message'')"
      and ext = ex_ext and payload = "PyStr ''v''"]
    tuple_status_and_payload [where op = "ex_op AuthNone (TypeObj TyNone)" and ext = ex_ext
      and h = ex_heap and status = "PyInt 201" and payload = "PyStr ''v''"]
  by (simp add: ex_defs op_defs)

text \<open>
  Claim C1 as stated fails: without a declared schema, a handler that returns
  \<open>(201, ''v'')\<close> gets a response whose body is the pair itself and whose constructor
  received no status; it is not the response with body \<open>''v''\<close> and status 201.
\<close>

theorem tuple_without_schema_counterexample:
  "create_response ex_ext ex_heap (ex_op AuthNone (TypeObj TyNone)) (PyTuple [PyInt 201, PyStr ''v''])
     = Inr (Response (PyTuple [PyInt 201, PyStr ''v'']) None) \<and>
   create_response ex_ext ex_heap (ex_op AuthNone (TypeObj TyNone)) (PyTuple [PyInt 201, PyStr ''v''])
     \<noteq> Inr (Response (PyStr ''v'') (Some (PyInt 201)))"
  by (simp add: create_response_def ex_defs op_defs)

section \<open>Aggregation of validation errors\<close>

text \<open>
  Claim C2. Once the security checks have passed, if at least one parameter model
  fails validation, then \<open>_get_values\<close> has called every model, in declaration order;
  the error list is the concatenation, in that order, of the errors of every failing
  model, each location prefixed with the source tag of its own model; and the run
  answers with status 422 and the body \<open>{"detail": errors}\<close> holding that whole list.
  The handler is not called.
\<close>

theorem validation_errors_aggregated:
  assumes checks: "run_checks ext op s = (Inr None, s1)"
    and failing: "list_ex (fails_validation (request s1) kw) (models op)"
  shows "snd (fst (get_values op kw s1)) = concat (map (model_errors (request s1) kw) (models op)) \<and>
         run ext h op kw s =
           (Inr (Response
                  (PyDict [(PyStr ''detail'',
                            PyList (map item_dict
                              (concat (map (model_errors (request s1) kw) (models op)))))])
                  (Some (PyInt 422))),
            s1\<lparr>calls := calls s1 @ map ResolveCall [0..<length (models op)]\<rparr>)"
proof -
  obtain vs es s2 where gv: "get_values op kw s1 = ((vs, es), s2)"
    by (metis surj_pair)
  from get_values_errors [of op kw s1] gv
  have es: "es = concat (map (model_errors (request s1) kw) (models op))"
    and s2: "s2 = s1\<lparr>calls := calls s1 @ map ResolveCall [0..<length (models op)]\<rparr>"
    by simp_all
  from fails_validation_errors [OF failing] es have "es \<noteq> []" by simp
  then have "run ext h op kw s = (Inr (validation_failure es), s2)"
    by (simp add: run_def checks gv)
  then show ?thesis
    using gv es s2 by (simp add: validation_failure_def)
qed

theorem validation_errors_aggregated_witness:
  "run_checks ex_ext
     ((ex_op AuthNone (TypeObj TyNone))\<lparr>models := [ex_path_model, ex_query_model, ex_body_model]\<rparr>)
     ex_state = (Inr None, ex_state) \<and>
   list_ex (fails_validation (request ex_state) Map.empty)
     [ex_path_model, ex_query_model, ex_body_model] \<and>
   run ex_ext ex_heap
     ((ex_op AuthNone (TypeObj TyNone))\<lparr>models := [ex_path_model, ex_query_model, ex_body_model]\<rparr>)
     Map.empty ex_state =
     (Inr (Response
            (PyDict [(PyStr ''detail'',
               PyList [PyDict [(PyStr ''loc'', PyTuple [PyStr ''path'', PyStr ''id'']),
                               (PyStr ''msg'', PyStr ''value is not a valid integer''),
                               (PyStr ''type'', PyStr ''type_error.integer'')],
                       PyDict [(PyStr ''loc'', PyTuple [PyStr ''body'', PyStr ''name'']),
                               (PyStr ''msg'', PyStr ''field required''),
                               (PyStr ''type'', PyStr ''value_error.missing'')]])])
            (Some (PyInt 422))),
      ex_state\<lparr>calls := [ResolveCall 0, ResolveCall 1, ResolveCall 2]\<rparr>)"
proof -
  let ?op = "(ex_op AuthNone (TypeObj TyNone))\<lparr>models := [ex_path_model, ex_query_model, ex_body_model]\<rparr>"
  have checks: "run_checks ex_ext ?op ex_state = (Inr None, ex_state)"
    by (simp add: run_checks_def ex_defs op_defs)
  have failing: "list_ex (fails_validation (request ex_state) Map.empty) (models ?op)"
    by (simp add: fails_validation_def ex_state_def ex_path_model_def ex_query_model_def
        ex_body_model_def)
  have upt3: "[0..<3] = [0, 1, 2]"
    by (simp add: upt_rec)
  from validation_errors_aggregated [OF checks failing, of ex_heap] checks failing
  show ?thesis
    by (simp add: model_errors_def item_dict_def upt3 ex_path_model_def ex_query_model_def
        ex_body_model_def ex_state_def)
qed

section \<open>Authentication\<close>

text \<open>
  Claim C3. When the configured callbacks are \<open>pre @ c # post\<close>, every callback of
  \<open>pre\<close> returns absent on the request and \<open>c\<close> returns the identity \<open>v\<close>, then
  authentication calls the callbacks of \<open>pre\<close> and then \<open>c\<close>, in declaration order,
  and no callback of \<open>post\<close>; it records \<open>v\<close> as \<open>request.auth\<close> and reports no
  error, and \<open>request.auth\<close> is still \<open>v\<close> when the security checks are over.
\<close>

theorem first_identity_wins:
  assumes cbs: "auth_callbacks op = pre @ c # post"
    and pre: "list_all (returns_absent (request s)) pre"
    and c: "returns_identity (request s) c v"
  shows "run_authentication op s =
           (Inr None, s\<lparr>request := (request s)\<lparr>auth := Some v\<rparr>,
                        calls := calls s @ map AuthCall [0..<Suc (length pre)]\<rparr>)
         \<and> auth (request (snd (run_checks ext op s))) = Some v"
proof -
  from c have cv: "call c (request s) = Inr v" and v: "v \<noteq> PyNone"
    by (auto simp: returns_identity_def split: sum.splits)
  have ra: "run_authentication op s =
           (Inr None, s\<lparr>request := (request s)\<lparr>auth := Some v\<rparr>,
                        calls := calls s @ map AuthCall [0..<Suc (length pre)]\<rparr>)"
    unfolding run_authentication_def cbs
    using run_authentication_from_absent [OF pre, of 0 "c # post"] cv v
    by (simp add: record_call_def)
  moreover have "auth (request (snd (run_checks ext op s))) = Some v"
    using cbs by (simp add: run_checks_def ra split: option.splits)
  ultimately show ?thesis by simp
qed

theorem first_identity_wins_witness:
  "auth_callbacks (ex_op (Seq [deny, accept ''user1'', accept ''user2'']) (TypeObj TyNone))
     = [deny] @ accept ''user1'' # [accept ''user2''] \<and>
   list_all (returns_absent (request ex_state)) [deny] \<and>
   returns_identity (request ex_state) (accept ''user1'') (PyStr ''user1'') \<and>
   run_authentication (ex_op (Seq [deny, accept ''user1'', accept ''user2'']) (TypeObj TyNone)) ex_state
     = (Inr None,
        \<lparr>request = \<lparr>auth = Some (PyStr ''user1''), content = PyNone, req_method = ''GET''\<rparr>,
         calls = [AuthCall 0, AuthCall 1]\<rparr>) \<and>
   auth (request (snd (run_checks ex_ext
       (ex_op (Seq [deny, accept ''user1'', accept ''user2'']) (TypeObj TyNone)) ex_state)))
     = Some (PyStr ''user1'')"
proof -
  let ?op = "ex_op (Seq [deny, accept ''user1'', accept ''user2'']) (TypeObj TyNone)"
  have cbs: "auth_callbacks ?op = [deny] @ accept ''user1'' # [accept ''user2'']"
    by (simp add: ex_defs op_defs)
  have pre: "list_all (returns_absent (request ex_state)) [deny]"
    by (simp add: returns_absent_def deny_def)
  have c: "returns_identity (request ex_state) (accept ''user1'') (PyStr ''user1'')"
    by (simp add: returns_identity_def accept_def)
  have upt2: "[0..<2] = [0, 1]"
    by (simp add: upt_rec)
  from first_identity_wins [OF cbs pre c, of ex_ext] cbs pre c
  show ?thesis
    by (simp add: ex_state_def upt2)
qed

text \<open>
  Claim C4. When auth callbacks are configured and every one of them returns absent
  on the request, the run answers with status 401 and the body
  \<open>{"detail": "Unauthorized"}\<close>. The calls of the run are the calls of the callbacks,
  each once and in order: no parameter model is resolved, the handler is not
  called, and the request is left as it was.
\<close>

theorem all_absent_unauthorized:
  assumes ne: "auth_callbacks op \<noteq> []"
    and absent: "list_all (returns_absent (request s)) (auth_callbacks op)"
  shows "run ext h op kw s =
           (Inr (Response (PyDict [(PyStr ''detail'', PyStr ''Unauthorized'')]) (Some (PyInt 401))),
            s\<lparr>calls := calls s @ map AuthCall [0..<length (auth_callbacks op)]\<rparr>)"
proof -
  have "run_authentication op s =
          (Inr (Some unauthorized),
           s\<lparr>calls := calls s @ map AuthCall [0..<length (auth_callbacks op)]\<rparr>)"
    unfolding run_authentication_def
    using run_authentication_from_absent [OF absent, of 0 "[]"] by simp
  then show ?thesis
    using ne by (simp add: run_def run_checks_def unauthorized_def)
qed

theorem all_absent_unauthorized_witness:
  "auth_callbacks ((ex_op (Seq [deny, deny]) (TypeObj TyNone))\<lparr>models := [ex_path_model]\<rparr>) \<noteq> [] \<and>
   list_all (returns_absent (request ex_state))
     (auth_callbacks ((ex_op (Seq [deny, deny]) (TypeObj TyNone))\<lparr>models := [ex_path_model]\<rparr>)) \<and>
   run ex_ext ex_heap ((ex_op (Seq [deny, deny]) (TypeObj TyNone))\<lparr>models := [ex_path_model]\<rparr>)
       Map.empty ex_state
     = (Inr (Response (PyDict [(PyStr ''detail'', PyStr ''Unauthorized'')]) (Some (PyInt 401))),
        ex_state\<lparr>calls := [AuthCall 0, AuthCall 1]\<rparr>)"
proof -
  let ?op = "(ex_op (Seq [deny, deny]) (TypeObj TyNone))\<lparr>models := [ex_path_model]\<rparr>"
  have cbs: "auth_callbacks ?op = [deny, deny]"
    by (simp add: ex_defs op_defs)
  then have ne: "auth_callbacks ?op \<noteq> []"
    by simp
  have absent: "list_all (returns_absent (request ex_state)) (auth_callbacks ?op)"
    unfolding cbs by (simp add: returns_absent_def deny_def)
  have upt2: "[0..<2] = [0, 1]"
    by (simp add: upt_rec)
  from all_absent_unauthorized [OF ne absent, of ex_ext ex_heap Map.empty] ne absent
  show ?thesis
    by (simp add: cbs ex_state_def upt2)
qed

section \<open>Dispatch by method\<close>

text \<open>
  Claim C5. The operation chosen for a request is the first one, in registration
  order, whose method list contains the method of the request, whatever the
  operations registered after it claim, and both views run that operation. When no
  operation matches, the result is the method-not-allowed response (django's
  \<open>HttpResponseNotAllowed\<close>, status 405) whose allowed methods are the union of the
  method lists of all the operations of the path.
\<close>

theorem first_matching_operation:
  "(operations pv = pre @ op # post \<and>
    list_all (\<lambda>op. req_method (request s) \<notin> set (methods op)) pre \<and>
    req_method (request s) \<in> set (methods op) \<longrightarrow>
      find_operation pv (request s) = (Some op, None) \<and>
      sync_view ext h pv kw s = run ext h op kw s \<and>
      async_view ext h pv kw s = run ext h op kw s) \<and>
   (list_all (\<lambda>op. req_method (request s) \<notin> set (methods op)) (operations pv) \<longrightarrow>
      find_operation pv (request s) =
        (None, Some (HttpResponseNotAllowed (all_methods (operations pv)) ''Method not allowed'')) \<and>
      sync_view ext h pv kw s =
        (Inr (HttpResponseNotAllowed (all_methods (operations pv)) ''Method not allowed''), s) \<and>
      async_view ext h pv kw s =
        (Inr (HttpResponseNotAllowed (all_methods (operations pv)) ''Method not allowed''), s))"
proof (intro conjI impI)
  assume a: "operations pv = pre @ op # post \<and>
    list_all (\<lambda>op. req_method (request s) \<notin> set (methods op)) pre \<and>
    req_method (request s) \<in> set (methods op)"
  then show f: "find_operation pv (request s) = (Some op, None)"
    using find_operation_from_no_match [of "request s" pre "op # post" "{}"]
    by (simp add: find_operation_def)
  show "sync_view ext h pv kw s = run ext h op kw s"
    by (simp add: sync_view_def f)
  show "async_view ext h pv kw s = run ext h op kw s"
    by (simp add: async_view_def f)
next
  assume a: "list_all (\<lambda>op. req_method (request s) \<notin> set (methods op)) (operations pv)"
  then show f: "find_operation pv (request s) =
        (None, Some (HttpResponseNotAllowed (all_methods (operations pv)) ''Method not allowed''))"
    using find_operation_from_no_match [of "request s" "operations pv" "[]" "{}"]
    by (simp add: find_operation_def)
  show "sync_view ext h pv kw s =
        (Inr (HttpResponseNotAllowed (all_methods (operations pv)) ''Method not allowed''), s)"
    by (simp add: sync_view_def f)
  show "async_view ext h pv kw s =
        (Inr (HttpResponseNotAllowed (all_methods (operations pv)) ''Method not allowed''), s)"
    by (simp add: async_view_def f)
qed

theorem first_matching_operation_witness:
  "operations ex_pv = [] @ hd (operations ex_pv) # tl (operations ex_pv) \<and>
   map methods (operations ex_pv) = [[''GET''], [''GET'', ''PUT'']] \<and>
   req_method (request ex_state) \<in> set (methods (hd (operations ex_pv))) \<and>
   find_operation ex_pv (request ex_state) = (Some (hd (operations ex_pv)), None) \<and>
   list_all (\<lambda>op. req_method (request (ex_state\<lparr>request := (request ex_state)\<lparr>req_method := ''POST''\<rparr>\<rparr>))
                    \<notin> set (methods op)) (operations ex_pv) \<and>
   sync_view ex_ext ex_heap ex_pv Map.empty
       (ex_state\<lparr>request := (request ex_state)\<lparr>req_method := ''POST''\<rparr>\<rparr>)
     = (Inr (HttpResponseNotAllowed {''GET'', ''PUT''} ''Method not allowed''),
        ex_state\<lparr>request := (request ex_state)\<lparr>req_method := ''POST''\<rparr>\<rparr>)"
proof -
  let ?post = "ex_state\<lparr>request := (request ex_state)\<lparr>req_method := ''POST''\<rparr>\<rparr>"
  have ops: "map methods (operations ex_pv) = [[''GET''], [''GET'', ''PUT'']]"
    by (simp add: ex_defs op_defs)
  then have split: "operations ex_pv = [] @ hd (operations ex_pv) # tl (operations ex_pv)"
    by (cases "operations ex_pv") simp_all
  from ops have first: "methods (hd (operations ex_pv)) = [''GET'']"
    by (cases "operations ex_pv") simp_all
  have "all_methods (operations ex_pv) = \<Union> (set (map set (map methods (operations ex_pv))))"
    by (simp add: all_methods_def comp_def)
  then have all: "all_methods (operations ex_pv) = {''GET'', ''PUT''}"
    unfolding ops by auto
  have nomatch: "list_all (\<lambda>op. req_method (request ?post) \<notin> set (methods op)) (operations ex_pv)"
    using ops by (cases "operations ex_pv") (auto simp: ex_state_def list_all_iff)
  from first_matching_operation [where pv = ex_pv and pre = "[]" and op = "hd (operations ex_pv)"
      and post = "tl (operations ex_pv)" and s = ex_state and ext = ex_ext and h = ex_heap
      and kw = Map.empty]
    first_matching_operation [where pv = ex_pv and s = ?post and ext = ex_ext and h = ex_heap
      and kw = Map.empty]
    split ops first all nomatch
  show ?thesis
    by (simp add: ex_state_def)
qed

section \<open>Status-keyed schemas\<close>

text \<open>
  Claim C6. When the response schema is status-keyed, the handler result is not a
  native response, and the resolved status (200, or the first element of a returned
  2-tuple) is not a key of the mapping, response shaping raises and serves nothing:
  no response at all comes back, so no other schema, status 200 or empty body
  either. For every status that has a hash, every integer in particular, the
  exception is the configuration error for that status. A run that reaches the
  handler ends with the exception of the shaping step.
\<close>

theorem undeclared_status_is_config_error:
  assumes keyed: "response_model op = DictRef d"
    and shaped: "\<not> isinstance_HttpResponse result"
    and missing: "\<not> is_key (h d) (resolved_status result)"
  shows "(hashable (resolved_status result) \<longrightarrow>
            create_response ext h op result = Inl (ConfigError (resolved_status result))) \<and>
         (\<forall>r. create_response ext h op result \<noteq> Inr r) \<and>
         (run_checks ext op s = (Inr None, s1) \<and> get_values op kw s1 = ((vs, []), s2) \<and>
          view_call (view_func op) (request s2) vs = result \<longrightarrow>
            fst (run ext h op kw s) = create_response ext h op result)"
proof -
  obtain payload where st: "split_result result = (resolved_status result, payload)"
    using split_result_status [of result] by (cases "split_result result") simp
  have "lookup_status (h d) (resolved_status result) = None"
    using missing by (simp add: lookup_status_None_iff)
  then have "create_response ext h op result =
      Inl (if hashable (resolved_status result) then ConfigError (resolved_status result)
           else TypeError)"
    using keyed shaped st by (simp add: create_response_def)
  then show ?thesis
    by (auto simp: run_reaches_handler)
qed

theorem undeclared_status_is_config_error_witness:
  "response_model (ex_op AuthNone (DictRef 0)) = DictRef 0 \<and>
   \<not> isinstance_HttpResponse (PyTuple [PyInt 201, PyStr ''v'']) \<and>
   \<not> is_key (ex_keyed_heap 0) (resolved_status (PyTuple [PyInt 201, PyStr ''v''])) \<and>
   hashable (resolved_status (PyTuple [PyInt 201, PyStr ''v''])) \<and>
   create_response ex_ext ex_keyed_heap (ex_op AuthNone (DictRef 0)) (PyTuple [PyInt 201, PyStr ''v''])
     = Inl (ConfigError (PyInt 201)) \<and>
   fst (run ex_ext ex_keyed_heap (ex_op AuthNone (DictRef 0)) Map.empty ex_state)
     = Inl (ConfigError (PyInt 201))"
proof -
  let ?op = "ex_op AuthNone (DictRef 0)"
  let ?result = "PyTuple [PyInt 201, PyStr ''v'']"
  have keyed: "response_model ?op = DictRef 0"
    by (simp add: ex_defs op_defs)
  have shaped: "\<not> isinstance_HttpResponse ?result"
    by simp
  have status: "resolved_status ?result = PyInt 201"
    by (simp add: resolved_status_def)
  have missing: "\<not> is_key (ex_keyed_heap 0) (resolved_status ?result)"
    by (simp add: status is_key_def ex_defs op_defs)
  have checks: "run_checks ex_ext ?op ex_state = (Inr None, ex_state)"
    by (simp add: run_checks_def ex_defs op_defs)
  have vals: "get_values ?op Map.empty ex_state = ((Map.empty, []), ex_state)"
    by (simp add: get_values_def ex_defs op_defs)
  have handler: "view_call (view_func ?op) (request ex_state) Map.empty = ?result"
    by (simp add: ex_defs op_defs)
  from undeclared_status_is_config_error [where op = ?op and d = 0 and h = ex_keyed_heap
      and result = ?result and ext = ex_ext and s = ex_state and ?s1.0 = ex_state
      and ?s2.0 = ex_state and kw = Map.empty and vs = Map.empty]
    keyed shaped missing checks vals handler status
  show ?thesis
    by simp
qed

section \<open>Native responses\<close>




section \<open>The async flags\<close>

text \<open>
  Claim C8. An Operation is constructed with \<open>is_async\<close> false and an
  AsyncOperation, when its construction succeeds, with \<open>is_async\<close> true; the two
  methods that assign attributes of an Operation afterwards, \<open>set_api_instance\<close> and
  \<open>_set_auth\<close>, leave the flag as it is. The operation that \<open>add\<close> returns and
  appends is asynchronous exactly when the handler is. The flag of a PathView starts
  false; after \<open>add\<close> it is true exactly when it was true before or the handler is
  asynchronous, so that adding a synchronous handler leaves a false flag false; after
  any sequence of calls of the PathView it is true exactly when it was true before or
  one of the calls added an asynchronous handler, so that once true it never reverts.
  Along such a sequence the flags of the operations already owned do not change.
  Starting from a new PathView the flag is true whenever an owned operation is
  asynchronous, and, where the framework supports asynchronous operations, it is the
  disjunction of the flags of the owned operations.
\<close>

theorem is_async_flags_monotonic:
  "is_async (fst (Operation_init ext h p ms v a response)) = False \<and>
   (AsyncOperation_init ext h p ms v a response = (Inr aop, h') \<longrightarrow> is_async aop) \<and>
   is_async (set_api_instance op ap) = is_async op \<and>
   is_async (set_auth op a') = is_async op \<and>
   (add ext h pv p ms v a response = (Inr added, pv', h'') \<longrightarrow>
      is_async added = coroutine v \<and> operations pv' = operations pv @ [added]) \<and>
   pv_is_async PathView_init = False \<and>
   pv_is_async (fst (snd (add ext h pv p ms v a response))) = (pv_is_async pv \<or> coroutine v) \<and>
   pv_is_async (fst (fold (pv_step ext) cs (pv, h)))
     = (pv_is_async pv \<or> list_ex adds_coroutine cs) \<and>
   take (length (operations pv)) (map is_async (operations (fst (fold (pv_step ext) cs (pv, h)))))
     = map is_async (operations pv) \<and>
   (list_ex is_async (operations (fst (fold (pv_step ext) cs (PathView_init, h))))
      \<longrightarrow> pv_is_async (fst (fold (pv_step ext) cs (PathView_init, h)))) \<and>
   (\<not> version_lt (django_version ext) (3, 1) \<longrightarrow>
      pv_is_async (fst (fold (pv_step ext) cs (PathView_init, h)))
        = list_ex is_async (operations (fst (fold (pv_step ext) cs (PathView_init, h)))))"
proof -
  have init: "pv_is_async PathView_init = list_ex is_async (operations PathView_init)"
    by (simp add: PathView_init_def)
  then have start: "list_ex is_async (operations PathView_init) \<longrightarrow> pv_is_async PathView_init"
    by simp
  have c1: "is_async (fst (Operation_init ext h p ms v a response)) = False"
    by (rule is_async_Operation_init)
  have c2: "AsyncOperation_init ext h p ms v a response = (Inr aop, h') \<longrightarrow> is_async aop"
    using is_async_AsyncOperation_init by blast
  have c3: "is_async (set_api_instance op ap) = is_async op"
    by (rule is_async_set_api_instance)
  have c4: "is_async (set_auth op a') = is_async op"
    by (rule is_async_set_auth)
  have c5: "add ext h pv p ms v a response = (Inr added, pv', h'') \<longrightarrow>
      is_async added = coroutine v \<and> operations pv' = operations pv @ [added]"
    using add_returns by blast
  have c6: "pv_is_async PathView_init = False"
    by (simp add: PathView_init_def)
  have c7: "pv_is_async (fst (snd (add ext h pv p ms v a response))) = (pv_is_async pv \<or> coroutine v)"
    by (rule add_flag)
  have c8: "pv_is_async (fst (fold (pv_step ext) cs (pv, h)))
      = (pv_is_async pv \<or> list_ex adds_coroutine cs)"
    by (rule pv_steps_flag_eq)
  have c9: "take (length (operations pv))
        (map is_async (operations (fst (fold (pv_step ext) cs (pv, h)))))
      = map is_async (operations pv)"
    by (rule pv_steps_owned)
  have c10: "list_ex is_async (operations (fst (fold (pv_step ext) cs (PathView_init, h))))
      \<longrightarrow> pv_is_async (fst (fold (pv_step ext) cs (PathView_init, h)))"
    by (rule pv_steps_or [OF start])
  have c11: "\<not> version_lt (django_version ext) (3, 1) \<longrightarrow>
      pv_is_async (fst (fold (pv_step ext) cs (PathView_init, h)))
        = list_ex is_async (operations (fst (fold (pv_step ext) cs (PathView_init, h))))"
    using pv_steps_exact [OF init] by blast
  from c1 c2 c3 c4 c5 c6 c7 c8 c9 c10 c11 show ?thesis
    by (intro conjI)
qed

theorem is_async_flags_monotonic_witness:
  "AsyncOperation_init ex_ext ex_heap ''/items'' [''PUT''] ex_async_view AuthNone (TypeObj TyNone)
     = (Inr ((fst (Operation_init ex_ext ex_heap ''/items'' [''PUT''] ex_async_view AuthNone
                (TypeObj TyNone)))\<lparr>is_async := True\<rparr>), ex_heap) \<and>
   is_async ((fst (Operation_init ex_ext ex_heap ''/items'' [''PUT''] ex_async_view AuthNone
                (TypeObj TyNone)))\<lparr>is_async := True\<rparr>) \<and>
   add ex_ext ex_heap PathView_init ''/items'' [''GET''] ex_view AuthNone (TypeObj TyNone)
     = (Inr (fst (Operation_init ex_ext ex_heap ''/items'' [''GET''] ex_view AuthNone (TypeObj TyNone))),
        PathView_init\<lparr>operations := operations PathView_init @
          [fst (Operation_init ex_ext ex_heap ''/items'' [''GET''] ex_view AuthNone (TypeObj TyNone))]\<rparr>,
        ex_heap) \<and>
   is_async (fst (Operation_init ex_ext ex_heap ''/items'' [''GET''] ex_view AuthNone (TypeObj TyNone)))
     = coroutine ex_view \<and>
   \<not> pv_is_async (fst (snd (add ex_ext ex_heap PathView_init ''/items'' [''GET''] ex_view AuthNone
       (TypeObj TyNone)))) \<and>
   pv_is_async ex_pv \<and>
   pv_is_async (fst (fold (pv_step ex_ext)
       [Get_view, Add ''/items'' [''POST''] ex_view AuthNone (TypeObj TyNone),
        Set_api_instance ex_api, Find_operation (request ex_state), Sync_view Map.empty ex_state]
       (ex_pv, ex_heap))) \<and>
   map is_async (operations (fst (fold (pv_step ex_ext)
       [Get_view, Add ''/items'' [''POST''] ex_view AuthNone (TypeObj TyNone),
        Set_api_instance ex_api, Find_operation (request ex_state), Sync_view Map.empty ex_state]
       (ex_pv, ex_heap)))) = [False, True, False] \<and>
   \<not> version_lt (django_version ex_ext) (3, 1) \<and>
   list_ex is_async (operations (fst (fold (pv_step ex_ext)
       [Add ''/items'' [''GET''] ex_view AuthNone (TypeObj TyNone),
        Add ''/items'' [''GET'', ''PUT''] ex_async_view AuthNone (TypeObj TyNone)]
       (PathView_init, ex_heap)))) \<and>
   pv_is_async (fst (fold (pv_step ex_ext)
       [Add ''/items'' [''GET''] ex_view AuthNone (TypeObj TyNone),
        Add ''/items'' [''GET'', ''PUT''] ex_async_view AuthNone (TypeObj TyNone)]
       (PathView_init, ex_heap))) \<and>
   pv_is_async (fst (fold (pv_step ex_ext)
       [Add ''/items'' [''GET''] ex_view AuthNone (TypeObj TyNone), Get_view,
        Set_api_instance ex_api]
       (PathView_init, ex_heap)))
     = list_ex is_async (operations (fst (fold (pv_step ex_ext)
       [Add ''/items'' [''GET''] ex_view AuthNone (TypeObj TyNone), Get_view,
        Set_api_instance ex_api]
       (PathView_init, ex_heap)))) \<and>
   \<not> pv_is_async (fst (fold (pv_step ex_ext)
       [Add ''/items'' [''GET''] ex_view AuthNone (TypeObj TyNone), Get_view,
        Set_api_instance ex_api]
       (PathView_init, ex_heap)))"
proof -
  let ?cs = "[Get_view, Add ''/items'' [''POST''] ex_view AuthNone (TypeObj TyNone),
        Set_api_instance ex_api, Find_operation (request ex_state), Sync_view Map.empty ex_state]"
  let ?reg = "[Add ''/items'' [''GET''] ex_view AuthNone (TypeObj TyNone),
        Add ''/items'' [''GET'', ''PUT''] ex_async_view AuthNone (TypeObj TyNone)]"
  let ?sync = "[Add ''/items'' [''GET''] ex_view AuthNone (TypeObj TyNone), Get_view,
        Set_api_instance ex_api]"
  let ?aop = "(fst (Operation_init ex_ext ex_heap ''/items'' [''PUT''] ex_async_view AuthNone
                (TypeObj TyNone)))\<lparr>is_async := True\<rparr>"
  let ?sop = "fst (Operation_init ex_ext ex_heap ''/items'' [''GET''] ex_view AuthNone (TypeObj TyNone))"
  have init: "AsyncOperation_init ex_ext ex_heap ''/items'' [''PUT''] ex_async_view AuthNone
       (TypeObj TyNone) = (Inr ?aop, ex_heap)"
    by (simp add: AsyncOperation_init_def Operation_init_def version_lt_def ex_ext_def)
  have added: "add ex_ext ex_heap PathView_init ''/items'' [''GET''] ex_view AuthNone (TypeObj TyNone)
      = (Inr ?sop, PathView_init\<lparr>operations := operations PathView_init @ [?sop]\<rparr>, ex_heap)"
    by (simp add: add_def Operation_init_def ex_view_def)
  have sync: "\<not> coroutine ex_view"
    by (simp add: ex_view_def)
  have flag: "pv_is_async ex_pv"
    by (simp add: ex_defs op_defs)
  have owned: "map is_async (operations (fst (fold (pv_step ex_ext) ?cs (ex_pv, ex_heap))))
      = [False, True, False]"
    by (simp add: ex_defs op_defs)
  have version: "\<not> version_lt (django_version ex_ext) (3, 1)"
    by (simp add: version_lt_def ex_ext_def)
  have some: "list_ex is_async (operations (fst (fold (pv_step ex_ext) ?reg (PathView_init, ex_heap))))"
    by (simp add: ex_defs op_defs)
  have none: "\<not> list_ex adds_coroutine ?sync"
    by (simp add: ex_view_def)
  note t1 = is_async_flags_monotonic [where ext = ex_ext and h = ex_heap and p = "''/items''"
      and ms = "[''PUT'']" and v = ex_async_view and a = AuthNone and response = "TypeObj TyNone"
      and aop = ?aop and h' = ex_heap and pv = ex_pv and cs = ?cs]
  note t2 = is_async_flags_monotonic [where ext = ex_ext and h = ex_heap and p = "''/items''"
      and ms = "[''GET'']" and v = ex_view and a = AuthNone and response = "TypeObj TyNone"
      and pv = PathView_init and added = ?sop
      and pv' = "PathView_init\<lparr>operations := operations PathView_init @ [?sop]\<rparr>"
      and h'' = ex_heap and cs = ?reg]
  note t3 = is_async_flags_monotonic [where ext = ex_ext and h = ex_heap and pv = PathView_init
      and cs = ?sync]
  have w1: "is_async ?aop"
    using t1 [THEN conjunct2, THEN conjunct1] init by blast
  have w2: "is_async ?sop = coroutine ex_view"
    using t2 [THEN conjunct2, THEN conjunct2, THEN conjunct2, THEN conjunct2, THEN conjunct1] added by blast
  have w3: "\<not> pv_is_async (fst (snd (add ex_ext ex_heap PathView_init ''/items'' [''GET''] ex_view
      AuthNone (TypeObj TyNone))))"
    using t2 [THEN conjunct2, THEN conjunct2, THEN conjunct2, THEN conjunct2, THEN conjunct2, THEN conjunct2, THEN conjunct1] t2 [THEN conjunct2, THEN conjunct2, THEN conjunct2, THEN conjunct2, THEN conjunct2, THEN conjunct1] sync by blast
  have w4: "pv_is_async (fst (fold (pv_step ex_ext) ?cs (ex_pv, ex_heap)))"
    using t1 [THEN conjunct2, THEN conjunct2, THEN conjunct2, THEN conjunct2, THEN conjunct2, THEN conjunct2, THEN conjunct2, THEN conjunct1] flag by blast
  have w5: "pv_is_async (fst (fold (pv_step ex_ext) ?reg (PathView_init, ex_heap)))"
    using t2 [THEN conjunct2, THEN conjunct2, THEN conjunct2, THEN conjunct2, THEN conjunct2, THEN conjunct2, THEN conjunct2, THEN conjunct2, THEN conjunct2, THEN conjunct1] some by blast
  have w7: "pv_is_async (fst (fold (pv_step ex_ext) ?sync (PathView_init, ex_heap)))
      = list_ex is_async (operations (fst (fold (pv_step ex_ext) ?sync (PathView_init, ex_heap))))"
    using t3 [THEN conjunct2, THEN conjunct2, THEN conjunct2, THEN conjunct2, THEN conjunct2, THEN conjunct2, THEN conjunct2, THEN conjunct2, THEN conjunct2, THEN conjunct2] version by blast
  have w6: "\<not> pv_is_async (fst (fold (pv_step ex_ext) ?sync (PathView_init, ex_heap)))"
    using t3 [THEN conjunct2, THEN conjunct2, THEN conjunct2, THEN conjunct2, THEN conjunct2, THEN conjunct2, THEN conjunct2, THEN conjunct1] t3 [THEN conjunct2, THEN conjunct2, THEN conjunct2, THEN conjunct2, THEN conjunct2, THEN conjunct1] none by blast
  from init w1 added w2 w3 flag w4 owned version some w5 w7 w6 show ?thesis
    by (intro conjI)
qed

section \<open>Construction\<close>

text \<open>
  Claim C9. Constructing an Operation with a status-keyed response declaration, a
  dict object \<open>d\<close> of the caller, stores that same object as the response model and
  rewrites it in place: after the construction the caller's dict holds, under each
  status, the wrapper schema of the type it held (\<open>None\<close> stays \<open>None\<close>), every other
  object is untouched, and no new dict is made. The caller's dict is therefore not
  what it was as soon as it declares one type.
\<close>

theorem status_keyed_declaration_rewritten_in_place:
  assumes "distinct (map fst (h d))"
  shows "response_model (fst (Operation_init ext h p ms v a (DictRef d))) = DictRef d \<and>
         snd (Operation_init ext h p ms v a (DictRef d)) = h(d := wrap_values (h d)) \<and>
         (list_ex (\<lambda>(status, model). model \<noteq> TyNone) (h d) \<longrightarrow>
            snd (Operation_init ext h p ms v a (DictRef d)) d \<noteq> h d)"
  using assms wrap_values_changes [of "h d"]
  by (simp add: Operation_init_def create_response_model_multiple_eq)

theorem status_keyed_declaration_rewritten_in_place_witness:
  "distinct (map fst (ex_heap 0)) \<and>
   list_ex (\<lambda>(status, model). model \<noteq> TyNone) (ex_heap 0) \<and>
   ex_heap 0 = [(200, TyName ''Item''), (404, TyName ''Message'')] \<and>
   response_model (fst (Operation_init ex_ext ex_heap ''/items'' [''GET''] ex_view AuthNone (DictRef 0)))
     = DictRef 0 \<and>
   snd (Operation_init ex_ext ex_heap ''/items'' [''GET''] ex_view AuthNone (DictRef 0)) 0
     = [(200, NinjaResponseSchema (TyName ''Item'')), (404, NinjaResponseSchema (TyName ''Message''))] \<and>
   snd (Operation_init ex_ext ex_heap ''/items'' [''GET''] ex_view AuthNone (DictRef 0)) 0 \<noteq> ex_heap 0"
proof -
  have d: "distinct (map fst (ex_heap 0))"
    by (simp add: ex_heap_def)
  have ty: "list_ex (\<lambda>(status, model). model \<noteq> TyNone) (ex_heap 0)"
    by (simp add: ex_heap_def)
  have dict: "ex_heap 0 = [(200, TyName ''Item''), (404, TyName ''Message'')]"
    by (simp add: ex_heap_def)
  from status_keyed_declaration_rewritten_in_place [where h = ex_heap and d = 0 and ext = ex_ext
      and p = "''/items''" and ms = "[''GET'']" and v = ex_view and a = AuthNone] d ty dict
  show ?thesis
    by (simp add: wrap_values_def)
qed

text \<open>
  Claim C10. An Operation constructed with \<open>auth\<close> equal to an empty sequence stores
  the one-element callback list whose element is that empty sequence; attaching the
  operation to an application does not replace it. Auth then counts as configured:
  on every request the run calls that element, which is not callable, and ends with
  the \<open>TypeError\<close> of the call. With \<open>auth=None\<close> the callback list is empty.
\<close>

theorem empty_auth_sequence_is_one_callback:
  "auth_callbacks (fst (Operation_init ext h p ms v (Seq []) response)) = [Seq []] \<and>
   auth_callbacks (set_api_instance (fst (Operation_init ext h p ms v (Seq []) response)) ap)
     = [Seq []] \<and>
   run ext h' (fst (Operation_init ext h p ms v (Seq []) response)) kw s
     = (Inl TypeError, record_call (AuthCall 0) s) \<and>
   run ext h' (set_api_instance (fst (Operation_init ext h p ms v (Seq []) response)) ap) kw s
     = (Inl TypeError, record_call (AuthCall 0) s) \<and>
   auth_callbacks (fst (Operation_init ext h p ms v AuthNone response)) = []"
  by (cases response)
     (simp_all add: Operation_init_def set_auth_def set_api_instance_def run_def run_checks_def
        run_authentication_def create_response_model_multiple_def)

end
